theory Spec2Isabelle
  imports Complex_Main
begin

section \<open>Python values used by the daemon\<close>

text \<open>
  A Python \<open>str\<close> is a sequence of Unicode code points: \<open>len\<close> counts code points and
  the literals of the source contain Cyrillic letters and emoji. A string is therefore a
  list of code points; \<open>str\<close> embeds an ASCII literal.
  Timestamps (\<open>time.time()\<close>, seconds) are real numbers; every reading of the clock is an
  argument of the function that reads it.
\<close>

type_synonym pystr = "nat list"

definition str :: "string \<Rightarrow> pystr" where
  "str s = map of_char s"

text \<open>The code points that \<open>str.strip()\<close> and \<open>str.split()\<close> treat as whitespace.\<close>

definition isspace :: "nat \<Rightarrow> bool" where
  "isspace c =
     ((9 \<le> c \<and> c \<le> 13) \<or> (28 \<le> c \<and> c \<le> 32) \<or> c = 0x85 \<or> c = 0xA0 \<or> c = 0x1680
      \<or> (0x2000 \<le> c \<and> c \<le> 0x200A) \<or> c = 0x2028 \<or> c = 0x2029 \<or> c = 0x202F
      \<or> c = 0x205F \<or> c = 0x3000)"

definition strip :: "pystr \<Rightarrow> pystr" where
  "strip s = rev (dropWhile isspace (rev (dropWhile isspace s)))"

text \<open>\<open>text.split()\<close>: the maximal runs of non-whitespace code points, in order.\<close>

fun split_acc :: "pystr \<Rightarrow> pystr \<Rightarrow> pystr list" where
  "split_acc cur [] = (if cur = [] then [] else [cur])"
| "split_acc cur (c # cs) =
     (if isspace c then (if cur = [] then split_acc [] cs else cur # split_acc [] cs)
      else split_acc (cur @ [c]) cs)"

definition split :: "pystr \<Rightarrow> pystr list" where
  "split s = split_acc [] s"

text \<open>\<open>sep.join(parts)\<close>.\<close>

fun join :: "pystr \<Rightarrow> pystr list \<Rightarrow> pystr" where
  "join sep [] = []"
| "join sep [p] = p"
| "join sep (p # q # ps) = p @ sep @ join sep (q # ps)"

text \<open>\<open>xs[-k:]\<close> for a literal \<open>k\<close>: the last \<open>k\<close> elements, the whole list when
  \<open>k = 0\<close> (\<open>-0\<close> is \<open>0\<close>) or when the list is shorter.\<close>

definition slice_last :: "nat \<Rightarrow> 'a list \<Rightarrow> 'a list" where
  "slice_last k xs = (if k = 0 then xs else drop (length xs - k) xs)"

datatype error = IndexError | KeyError | TypeError | AttributeError | RequestException | Full

text \<open>The result of \<open>json.loads\<close> / \<open>response.json()\<close>. An object is the association list
  of its dict (\<open>map_of\<close> reads it); of a number only being zero or not is ever observed.\<close>

datatype json =
    JNull
  | JBool bool
  | JNum int
  | JStr pystr
  | JArr "json list"
  | JObj "(pystr \<times> json) list"

fun truthy :: "json \<Rightarrow> bool" where
  "truthy JNull = False"
| "truthy (JBool b) = b"
| "truthy (JNum n) = (n \<noteq> 0)"
| "truthy (JStr s) = (s \<noteq> [])"
| "truthy (JArr xs) = (xs \<noteq> [])"
| "truthy (JObj kvs) = (kvs \<noteq> [])"

text \<open>\<open>d.get(key, default)\<close>; on a value that is not a dict the attribute \<open>get\<close> is
  missing.\<close>

fun get :: "json \<Rightarrow> pystr \<Rightarrow> json \<Rightarrow> error + json" where
  "get (JObj kvs) k d = Inr (case map_of kvs k of None \<Rightarrow> d | Some v \<Rightarrow> v)"
| "get _ k d = Inl AttributeError"

text \<open>\<open>v[0]\<close>.\<close>

fun index0 :: "json \<Rightarrow> error + json" where
  "index0 (JArr xs) = (case xs of [] \<Rightarrow> Inl IndexError | x # _ \<Rightarrow> Inr x)"
| "index0 (JStr s) = (case s of [] \<Rightarrow> Inl IndexError | c # _ \<Rightarrow> Inr (JStr [c]))"
| "index0 (JObj kvs) = Inl KeyError"
| "index0 _ = Inl TypeError"

text \<open>\<open>v[key]\<close> for a string key.\<close>

fun subscript :: "json \<Rightarrow> pystr \<Rightarrow> error + json" where
  "subscript (JObj kvs) k = (case map_of kvs k of None \<Rightarrow> Inl KeyError | Some v \<Rightarrow> Inr v)"
| "subscript _ k = Inl TypeError"

text \<open>\<open>v.strip()\<close>.\<close>

fun strip_value :: "json \<Rightarrow> error + pystr" where
  "strip_value (JStr s) = Inr (strip s)"
| "strip_value _ = Inl AttributeError"

section \<open>DialogueContextManager\<close>

record QAEntry =
  question :: pystr
  answer :: pystr
  timestamp :: real
  tokens :: int

text \<open>
  The fields of \<open>DialogueContextManager\<close>. \<open>solver\<close> says whether a collaborator is set
  (the attribute is \<open>None\<close> until \<open>run_daemon\<close> assigns it). The queue holds the batches not
  yet taken by the worker, \<open>None\<close> being the shutdown sentinel; \<open>queue_maxsize\<close> is the
  \<open>maxsize\<close> of \<open>queue.Queue\<close>, where a value \<open>\<le> 0\<close> means unbounded.
\<close>

record context_manager =
  max_recent_entries :: int
  max_tokens :: int
  summarization_threshold :: int
  solver :: bool
  recent_qa :: "QAEntry list"
  summary :: pystr
  last_summarization_time :: real
  min_summarization_interval :: real
  token_count :: int
  summarization_queue :: "QAEntry list option list"
  queue_maxsize :: int

text \<open>\<open>__init__\<close>; \<open>queue.Queue()\<close> is built without a bound.\<close>

definition init :: "int \<Rightarrow> int \<Rightarrow> int \<Rightarrow> bool \<Rightarrow> context_manager" where
  "init max_recent max_tok threshold has_solver =
     \<lparr> max_recent_entries = max_recent, max_tokens = max_tok,
       summarization_threshold = threshold, solver = has_solver,
       recent_qa = [], summary = [], last_summarization_time = 0,
       min_summarization_interval = 60, token_count = 0,
       summarization_queue = [], queue_maxsize = 0 \<rparr>"

definition estimate_tokens :: "pystr \<Rightarrow> int" where
  "estimate_tokens text = int (length (split text)) + int (length text) div 4"

text \<open>\<open>Queue.put_nowait\<close>.\<close>

definition put_nowait :: "int \<Rightarrow> 'a list \<Rightarrow> 'a \<Rightarrow> error + 'a list" where
  "put_nowait maxsize q item =
     (if 0 < maxsize \<and> maxsize \<le> int (length q) then Inl Full else Inr (q @ [item]))"

definition check_summarization_needed :: "context_manager \<Rightarrow> real \<Rightarrow> context_manager" where
  "check_summarization_needed cm current_time =
     (if summarization_threshold cm < token_count cm
         \<and> min_summarization_interval cm < current_time - last_summarization_time cm
      then (let qa_to_summarize = recent_qa cm in
            case put_nowait (queue_maxsize cm) (summarization_queue cm) (Some qa_to_summarize) of
              Inl e \<Rightarrow> cm
            | Inr q \<Rightarrow> cm\<lparr>summarization_queue := q\<rparr>)
      else cm)"

text \<open>
  The eviction loop of \<open>add_qa\<close>:
  \<^verbatim>\<open>while len(self.recent_qa) > self.max_recent_entries:
      removed = self.recent_qa.pop(0)
      self._token_count -= removed.tokens\<close>
  \<open>pop(0)\<close> on an empty list raises \<open>IndexError\<close>, which happens exactly when the bound is
  negative.
\<close>

fun evict :: "int \<Rightarrow> QAEntry list \<Rightarrow> int \<Rightarrow> error + (QAEntry list \<times> int)" where
  "evict n [] tc = (if n < 0 then Inl IndexError else Inr ([], tc))"
| "evict n (r # rs) tc =
     (if n < int (length (r # rs)) then evict n rs (tc - tokens r) else Inr (r # rs, tc))"

text \<open>\<open>add_qa\<close>; \<open>now\<close> is the clock read for the entry, \<open>current_time\<close> the one read by
  \<open>_check_summarization_needed\<close>.\<close>

definition add_qa ::
  "context_manager \<Rightarrow> pystr \<Rightarrow> pystr \<Rightarrow> real \<Rightarrow> real \<Rightarrow> error + context_manager" where
  "add_qa cm q a now current_time =
     (let entry = \<lparr> question = q, answer = a, timestamp = now,
                    tokens = estimate_tokens (q @ a) \<rparr>
      in case evict (max_recent_entries cm) (recent_qa cm @ [entry])
                    (token_count cm + tokens entry) of
           Inl e \<Rightarrow> Inl e
         | Inr (recent, tc) \<Rightarrow>
             Inr (check_summarization_needed (cm\<lparr>recent_qa := recent, token_count := tc\<rparr>)
                    current_time))"

text \<open>
  \<open>SystemAnalystSolver.send_summarization\<close>. The argument is what
  \<open>post\<close>, \<open>raise_for_status\<close> and \<open>r.json()\<close> produce: the decoded body, or the
  exception one of them raised. The whole body of the method is under
  \<open>except Exception: return None\<close>.
\<close>

definition then_do :: "error + 'a \<Rightarrow> ('a \<Rightarrow> error + 'b) \<Rightarrow> error + 'b" where
  "then_do r f = (case r of Inl e \<Rightarrow> Inl e | Inr x \<Rightarrow> f x)"

definition response_content :: "json \<Rightarrow> error + pystr" where
  "response_content body =
     then_do (subscript body (str ''choices'')) (\<lambda>choices.
     then_do (index0 choices) (\<lambda>choice.
     then_do (subscript choice (str ''message'')) (\<lambda>message.
     then_do (subscript message (str ''content'')) strip_value)))"

definition send_summarization :: "error + json \<Rightarrow> pystr option" where
  "send_summarization response =
     (case then_do response response_content of Inl e \<Rightarrow> None | Inr s \<Rightarrow> Some s)"

text \<open>
  The block of \<open>_perform_summarization\<close> under \<open>if summary:\<close>, which both copies of the
  class share up to the number of entries kept (the literal \<open>4\<close> in \<open>xh_2.py\<close>,
  \<open>keep_count = 2\<close> in \<open>wp_11_analist_gemini.py\<close>).
\<close>

definition summarization_update :: "nat \<Rightarrow> context_manager \<Rightarrow> pystr \<Rightarrow> real \<Rightarrow> context_manager" where
  "summarization_update keep_count cm s now =
     (let cm1 = cm\<lparr>summary := strip s, last_summarization_time := now\<rparr>
      in if keep_count < length (recent_qa cm1)
         then (let kept = slice_last keep_count (recent_qa cm1)
               in cm1\<lparr>recent_qa := kept,
                       token_count := sum_list (map tokens kept) + estimate_tokens (summary cm1)\<rparr>)
         else cm1)"

text \<open>
  \<open>_perform_summarization\<close> of \<open>xh_2.py\<close>. \<open>reply\<close> is what the call
  \<open>self.solver.send_summarization(prompt)\<close> does: it raises or returns an optional string.
  The prompt is built from the batch and only handed to the collaborator, so the model
  takes the reply as an argument. An exception of the collaborator propagates: the method
  has no handler.
\<close>

definition perform_summarization ::
  "context_manager \<Rightarrow> QAEntry list \<Rightarrow> error + pystr option \<Rightarrow> real \<Rightarrow> error + context_manager" where
  "perform_summarization cm qa_entries reply now =
     (if qa_entries = [] \<or> \<not> solver cm then Inr cm
      else case reply of
             Inl e \<Rightarrow> Inl e
           | Inr None \<Rightarrow> Inr cm
           | Inr (Some s) \<Rightarrow> if s = [] then Inr cm else Inr (summarization_update 4 cm s now))"

text \<open>\<open>_perform_summarization\<close> of \<open>wp_11_analist_gemini.py\<close>: the call and the update are
  under \<open>except Exception: pass\<close>.\<close>

definition perform_summarization_gemini ::
  "context_manager \<Rightarrow> QAEntry list \<Rightarrow> error + pystr option \<Rightarrow> real \<Rightarrow> error + context_manager" where
  "perform_summarization_gemini cm qa_entries reply now =
     (if qa_entries = [] \<or> \<not> solver cm then Inr cm
      else case reply of
             Inl e \<Rightarrow> Inr cm
           | Inr None \<Rightarrow> Inr cm
           | Inr (Some s) \<Rightarrow> if s = [] then Inr cm else Inr (summarization_update 2 cm s now))"

text \<open>
  One iteration of the worker loop of \<open>xh_2.py\<close>: \<open>get\<close> on an empty queue ends in
  \<open>queue.Empty\<close> and the loop continues; the sentinel \<open>None\<close> ends the loop; a batch is
  summarized. The flag of the result says whether the loop goes on. \<open>worker\<close> runs the
  loop for as many iterations as there are collaborator replies.
\<close>

definition worker_step ::
  "context_manager \<Rightarrow> error + pystr option \<Rightarrow> real \<Rightarrow> error + (bool \<times> context_manager)" where
  "worker_step cm reply now =
     (case summarization_queue cm of
        [] \<Rightarrow> Inr (True, cm)
      | None # q \<Rightarrow> Inr (False, cm\<lparr>summarization_queue := q\<rparr>)
      | Some qa_entries # q \<Rightarrow>
          (case perform_summarization (cm\<lparr>summarization_queue := q\<rparr>) qa_entries reply now of
             Inl e \<Rightarrow> Inl e
           | Inr cm' \<Rightarrow> Inr (True, cm')))"

fun worker ::
  "context_manager \<Rightarrow> ((error + pystr option) \<times> real) list \<Rightarrow> error + (bool \<times> context_manager)" where
  "worker cm [] = Inr (True, cm)"
| "worker cm ((reply, now) # rest) =
     (case worker_step cm reply now of
        Inl e \<Rightarrow> Inl e
      | Inr (running, cm') \<Rightarrow> if running then worker cm' rest else Inr (False, cm'))"

text \<open>The literals of \<open>get_context_for_query\<close> in \<open>xh_2.py\<close>, as code points: a clipboard
  emoji and "summary of the discussion:" with a newline, a speaking-head emoji (with its
  variation selector) and "latest remarks:", a bust emoji and "PO/I: ", a robot emoji and
  "Assistant: ".\<close>

definition label_summary :: pystr where
  "label_summary = [0x1F4CB, 0x20, 0x420, 0x435, 0x437, 0x44E, 0x43C, 0x435, 0x20, 0x43E, 0x431,
     0x441, 0x443, 0x436, 0x434, 0x435, 0x43D, 0x438, 0x44F, 0x3A, 0xA]"

definition label_recent :: pystr where
  "label_recent = [0x1F5E3, 0xFE0F, 0x20, 0x41F, 0x43E, 0x441, 0x43B, 0x435, 0x434, 0x43D, 0x438,
     0x435, 0x20, 0x440, 0x435, 0x43F, 0x43B, 0x438, 0x43A, 0x438, 0x3A]"

definition label_question :: pystr where
  "label_question = [0x1F464, 0x20, 0x50, 0x4F, 0x2F, 0x42F, 0x3A, 0x20]"

definition label_answer :: pystr where
  "label_answer = [0x1F916, 0x20, 0x410, 0x441, 0x441, 0x438, 0x441, 0x442, 0x435, 0x43D, 0x442,
     0x3A, 0x20]"

definition render_entries :: "pystr \<Rightarrow> pystr \<Rightarrow> QAEntry list \<Rightarrow> pystr list" where
  "render_entries lq la entries = concat (map (\<lambda>e. [lq @ question e, la @ answer e]) entries)"

definition get_context_for_query :: "context_manager \<Rightarrow> pystr \<Rightarrow> pystr" where
  "get_context_for_query cm new_question =
     (let parts = (if summary cm \<noteq> [] then [label_summary @ summary cm @ [0xA]] else [])
                  @ (if recent_qa cm \<noteq> []
                     then label_recent
                          # render_entries label_question label_answer (slice_last 4 (recent_qa cm))
                     else [])
      in if parts \<noteq> [] then join [0xA] parts else [])"

text \<open>The same method in \<open>wp_11_analist_gemini.py\<close>: other literals ("summary of the past
  context:" with a newline, "latest Q&A:", "Q: ", "A: ") and every recent entry rendered.\<close>

definition label_summary_gemini :: pystr where
  "label_summary_gemini = [0x420, 0x435, 0x437, 0x44E, 0x43C, 0x435, 0x20, 0x43F, 0x440, 0x43E,
     0x448, 0x43B, 0x43E, 0x433, 0x43E, 0x20, 0x43A, 0x43E, 0x43D, 0x442, 0x435, 0x43A, 0x441,
     0x442, 0x430, 0x3A, 0xA]"

definition label_recent_gemini :: pystr where
  "label_recent_gemini = [0x41F, 0x43E, 0x441, 0x43B, 0x435, 0x434, 0x43D, 0x438, 0x435, 0x20,
     0x51, 0x26, 0x41, 0x3A]"

definition get_context_for_query_gemini :: "context_manager \<Rightarrow> pystr \<Rightarrow> pystr" where
  "get_context_for_query_gemini cm new_question =
     (let parts = (if summary cm \<noteq> [] then [label_summary_gemini @ summary cm @ [0xA]] else [])
                  @ (if recent_qa cm \<noteq> []
                     then label_recent_gemini
                          # render_entries (str ''Q: '') (str ''A: '') (recent_qa cm)
                     else [])
      in if parts \<noteq> [] then join [0xA] parts else [])"

section \<open>AudioTranscriberRealtime\<close>

datatype process = ProcRunning | ProcTerminated | ProcKilled

datatype websocket = WsRunning | WsClosed

text \<open>
  The fields of \<open>AudioTranscriberRealtime\<close> that the session logic reads or writes. The
  two \<open>threading.Event\<close>s are their flags; a thread field says whether the thread was
  started.
\<close>

record transcriber =
  is_recording :: bool
  ffmpeg_process :: "process option"
  ws_app :: "websocket option"
  ws_thread :: bool
  send_thread :: bool
  ws_connected :: bool
  stop_sending :: bool
  final_chunks :: "pystr list"
  partial :: pystr

definition transcriber_init :: transcriber where
  "transcriber_init =
     \<lparr> is_recording = False, ffmpeg_process = None, ws_app = None, ws_thread = False,
       send_thread = False, ws_connected = False, stop_sending = False,
       final_chunks = [], partial = [] \<rparr>"

text \<open>
  \<open>_on_message\<close>. The argument is the result of \<open>json.loads(message)\<close>, \<open>None\<close> when it
  raised. Attribute and index errors of the body are not handled in the method and leave
  it as exceptions.
\<close>

definition on_message :: "transcriber \<Rightarrow> json option \<Rightarrow> error + transcriber" where
  "on_message s message =
     (case message of
        None \<Rightarrow> Inr s
      | Some data \<Rightarrow>
          (case data of
             JObj kvs \<Rightarrow>
               then_do (get data (str ''type'') JNull) (\<lambda>ty.
               if ty = JStr (str ''Results'') then
                 then_do (get data (str ''channel'') (JObj [])) (\<lambda>channel.
                 then_do (get channel (str ''alternatives'') (JArr [])) (\<lambda>alts.
                 if truthy alts then
                   then_do (index0 alts) (\<lambda>alt.
                   then_do (get alt (str ''transcript'') (JStr [])) (\<lambda>transcript.
                   then_do (strip_value transcript) (\<lambda>text.
                   then_do (get data (str ''is_final'') (JBool False)) (\<lambda>is_final.
                   if truthy is_final
                   then Inr (s\<lparr>final_chunks := (if text \<noteq> [] then final_chunks s @ [text]
                                                  else final_chunks s),
                               partial := []\<rparr>)
                   else Inr (s\<lparr>partial := text\<rparr>)))))
                 else Inr s))
               else Inr s)
           | _ \<Rightarrow> Inr s))"

definition on_open :: "transcriber \<Rightarrow> transcriber" where
  "on_open s = s\<lparr>ws_connected := True\<rparr>"

definition on_close :: "transcriber \<Rightarrow> transcriber" where
  "on_close s = s\<lparr>ws_connected := False\<rparr>"

definition on_error :: "transcriber \<Rightarrow> transcriber" where
  "on_error s = s\<lparr>ws_connected := False\<rparr>"

text \<open>The receiver applied to the messages of a connection, in arrival order; an
  exception of \<open>_on_message\<close> ends the run here.\<close>

fun receive :: "transcriber \<Rightarrow> json option list \<Rightarrow> error + transcriber" where
  "receive s [] = Inr s"
| "receive s (m # ms) = (case on_message s m of Inl e \<Rightarrow> Inl e | Inr s' \<Rightarrow> receive s' ms)"

text \<open>
  What the surroundings do during \<open>start_recording\<close> and \<open>stop_recording\<close>: whether
  \<open>subprocess.Popen\<close>, \<open>terminate\<close>/\<open>wait(timeout=2)\<close>, \<open>kill\<close> and the connection's
  \<open>close\<close> raise, and after how many seconds the connection calls \<open>_on_open\<close> (\<open>None\<close>:
  never). Every one of these calls is under \<open>try\<close>/\<open>except Exception\<close> in the source, so
  the two methods return normally whatever the surroundings do.
\<close>

record surroundings =
  popen_raises :: bool
  terminate_raises :: bool
  kill_raises :: bool
  close_raises :: bool
  open_delay :: "real option"

text \<open>\<open>self._ws_connected.wait(timeout)\<close>: true when the flag is set already or gets set
  before the timeout ends.\<close>

definition wait_connected :: "bool \<Rightarrow> real option \<Rightarrow> real \<Rightarrow> bool" where
  "wait_connected flag delay timeout =
     (flag \<or> (case delay of None \<Rightarrow> False | Some d \<Rightarrow> d \<le> timeout))"

definition start_recording :: "surroundings \<Rightarrow> transcriber \<Rightarrow> transcriber" where
  "start_recording env s =
     (if is_recording s then s
      else let s1 = s\<lparr>is_recording := True, final_chunks := [], partial := [],
                       stop_sending := False\<rparr>
           in if popen_raises env then s1\<lparr>is_recording := False\<rparr>
              else let s2 = s1\<lparr>ffmpeg_process := Some ProcRunning, ws_app := Some WsRunning,
                                ws_thread := True\<rparr>
                   in if \<not> wait_connected (ws_connected s2) (open_delay env) 3
                      then s2\<lparr>ffmpeg_process :=
                                 Some (if kill_raises env then ProcRunning else ProcKilled),
                               is_recording := False\<rparr>
                      else (on_open s2)\<lparr>send_thread := True\<rparr>)"

definition stop_recording :: "surroundings \<Rightarrow> transcriber \<Rightarrow> pystr option \<times> transcriber" where
  "stop_recording env s =
     (if \<not> is_recording s then (None, s)
      else let s1 = s\<lparr>is_recording := False\<rparr>;
               s2 = (case ffmpeg_process s1 of
                       None \<Rightarrow> s1
                     | Some p \<Rightarrow>
                         s1\<lparr>ffmpeg_process :=
                              Some (if \<not> terminate_raises env then ProcTerminated
                                    else if \<not> kill_raises env then ProcKilled else p)\<rparr>);
               s3 = s2\<lparr>stop_sending := True\<rparr>;
               s4 = (case ws_app s3 of
                       None \<Rightarrow> s3
                     | Some w \<Rightarrow> s3\<lparr>ws_app := Some (if close_raises env then w else WsClosed)\<rparr>);
               parts = final_chunks s4 @ (if partial s4 \<noteq> [] then [partial s4] else []);
               final_text = strip (join (str '' '') parts)
           in (if final_text \<noteq> [] then Some final_text else None,
               s4\<lparr>final_chunks := [], partial := []\<rparr>))"

section \<open>Runs, reference accumulator and example states\<close>

text \<open>A sequence of \<open>add_qa\<close> calls, each with its two clock readings; the first
  exception ends the run.\<close>

fun add_all ::
  "context_manager \<Rightarrow> (pystr \<times> pystr \<times> real \<times> real) list \<Rightarrow> error + context_manager" where
  "add_all cm [] = Inr cm"
| "add_all cm ((q, a, now, current_time) # calls) =
     (case add_qa cm q a now current_time of
        Inl e \<Rightarrow> Inl e
      | Inr cm' \<Rightarrow> add_all cm' calls)"

text \<open>The sum of \<open>tokens\<close> over the entries currently held.\<close>

definition weight_sum :: "context_manager \<Rightarrow> int" where
  "weight_sum cm = sum_list (map tokens (recent_qa cm))"

text \<open>Python's falsy results of a collaborator: \<open>None\<close> and the empty string.\<close>

definition no_summary :: "pystr option \<Rightarrow> bool" where
  "no_summary r = (case r of None \<Rightarrow> True | Some s \<Rightarrow> s = [])"

text \<open>A turn "a"/"b" of weight 1, and the managers holding one and five of them.\<close>

definition short_turn :: QAEntry where
  "short_turn = \<lparr> question = str ''a'', answer = str ''b'', timestamp = 1, tokens = 1 \<rparr>"

definition one_turn :: context_manager where
  "one_turn = (init 10 1200 900 True)\<lparr>recent_qa := [short_turn], token_count := 1\<rparr>"

definition five_calls :: "(pystr \<times> pystr \<times> real \<times> real) list" where
  "five_calls = [(str ''a'', str ''b'', 1, 1), (str ''a'', str ''b'', 1, 1),
     (str ''a'', str ''b'', 1, 1), (str ''a'', str ''b'', 1, 1), (str ''a'', str ''b'', 1, 1)]"

definition five_turns :: context_manager where
  "five_turns = (init 10 1200 900 True)
     \<lparr>recent_qa := [short_turn, short_turn, short_turn, short_turn, short_turn],
      token_count := 5\<rparr>"

definition five_summarized :: context_manager where
  "five_summarized = five_turns
     \<lparr>summary := str ''ok'', last_summarization_time := 2,
      recent_qa := [short_turn, short_turn, short_turn, short_turn], token_count := 5\<rparr>"

definition one_summarized :: context_manager where
  "one_summarized = one_turn\<lparr>summary := str ''ok'', last_summarization_time := 2\<rparr>"

text \<open>Three responses of the completion service without a usable summary: the request
  raises, the body has no \<open>choices\<close>, the content is blank.\<close>

definition blank_response :: json where
  "blank_response =
     JObj [(str ''choices'',
        JArr [JObj [(str ''message'', JObj [(str ''content'', JStr (str ''  ''))])]])]"

definition failing_attempts :: "((error + json) \<times> real) list" where
  "failing_attempts = [(Inl RequestException, 70), (Inr (JObj []), 80), (Inr blank_response, 90)]"

definition queued_manager :: context_manager where
  "queued_manager = five_turns
     \<lparr>summarization_queue := [Some [short_turn], Some [short_turn], Some [short_turn]]\<rparr>"

text \<open>
  A recognition event and the message that carries it: a \<open>Results\<close> object whose first
  alternative holds the transcript, with the \<open>is_final\<close> flag.
\<close>

datatype event = Interim pystr | Final pystr

fun raw_transcript :: "event \<Rightarrow> pystr" where
  "raw_transcript (Interim t) = t"
| "raw_transcript (Final t) = t"

fun confirmed :: "event \<Rightarrow> bool" where
  "confirmed (Interim t) = False"
| "confirmed (Final t) = True"

definition results_message :: "event \<Rightarrow> json" where
  "results_message e =
     JObj [(str ''type'', JStr (str ''Results'')),
           (str ''channel'',
              JObj [(str ''alternatives'',
                 JArr [JObj [(str ''transcript'', JStr (raw_transcript e))]])]),
           (str ''is_final'', JBool (confirmed e))]"

text \<open>
  When a decoded message carries an event, whatever else it holds: it is an object of
  type \<open>Results\<close>, its \<open>channel.alternatives[0].transcript\<close> is the event's transcript
  and its \<open>is_final\<close> is the event's flag.
\<close>

fun object_fields :: "json \<Rightarrow> (pystr \<times> json) list option" where
  "object_fields (JObj kvs) = Some kvs"
| "object_fields _ = None"

fun first_alternative :: "json \<Rightarrow> (pystr \<times> json) list option" where
  "first_alternative (JArr (JObj alt # others)) = Some alt"
| "first_alternative _ = None"

definition carries :: "json \<Rightarrow> event \<Rightarrow> bool" where
  "carries data e =
     (case object_fields data of
        None \<Rightarrow> False
      | Some kvs \<Rightarrow>
          map_of kvs (str ''type'') = Some (JStr (str ''Results''))
          \<and> map_of kvs (str ''is_final'') = Some (JBool (confirmed e))
          \<and> (case Option.bind (map_of kvs (str ''channel'')) object_fields of
                None \<Rightarrow> False
              | Some ch \<Rightarrow>
                  (case Option.bind (map_of ch (str ''alternatives'')) first_alternative of
                     None \<Rightarrow> False
                   | Some alt \<Rightarrow>
                       map_of alt (str ''transcript'') = Some (JStr (raw_transcript e)))))"

text \<open>A final message as the service sends it, with fields the receiver does not read.\<close>

definition hello_message :: json where
  "hello_message =
     JObj [(str ''type'', JStr (str ''Results'')),
           (str ''duration'', JNum 1),
           (str ''is_final'', JBool True),
           (str ''channel'',
              JObj [(str ''alternatives'',
                 JArr [JObj [(str ''confidence'', JNum 1),
                             (str ''transcript'', JStr (str '' hello ''))]])])]"

text \<open>
  The accumulator as the specification words it, on the pair of finalized segments and
  pending segment: an interim event replaces the pending segment, a final event appends
  its text if non-empty and clears the pending segment. The text of an event is its
  transcript without surrounding whitespace. \<open>transcript\<close> is the result of stopping:
  the segments joined with single spaces and trimmed, nothing when that is empty.
\<close>

fun accumulate :: "pystr list \<times> pystr \<Rightarrow> event \<Rightarrow> pystr list \<times> pystr" where
  "accumulate (finalized, pending) (Interim t) = (finalized, strip t)"
| "accumulate (finalized, pending) (Final t) =
     (if strip t \<noteq> [] then finalized @ [strip t] else finalized, [])"

definition transcript :: "pystr list \<times> pystr \<Rightarrow> pystr option" where
  "transcript acc =
     (let text = strip (join (str '' '') (fst acc @ (if snd acc \<noteq> [] then [snd acc] else [])))
      in if text = [] then None else Some text)"

text \<open>The receiver handles the messages, then \<open>stop_recording\<close> is called.\<close>

definition session_transcript ::
  "surroundings \<Rightarrow> transcriber \<Rightarrow> json option list \<Rightarrow> error + pystr option" where
  "session_transcript env s messages =
     (case receive s messages of Inl e \<Rightarrow> Inl e | Inr s' \<Rightarrow> Inr (fst (stop_recording env s')))"

text \<open>Surroundings in which nothing raises and the connection opens after one second;
  surroundings without the encoder; a connection that opens after five seconds; and the
  session that \<open>start_recording\<close> makes of a new transcriber.\<close>

definition calm :: surroundings where
  "calm = \<lparr> popen_raises = False, terminate_raises = False, kill_raises = False,
            close_raises = False, open_delay = Some 1 \<rparr>"

definition no_encoder :: surroundings where
  "no_encoder = calm\<lparr>popen_raises := True\<rparr>"


definition active_session :: transcriber where
  "active_session = start_recording calm transcriber_init"



section \<open>Properties of the context manager\<close>

lemma evict_nonneg:
  "0 \<le> n \<Longrightarrow>
   evict n xs tc =
     Inr (drop (length xs - nat n) xs,
          tc - sum_list (map tokens (take (length xs - nat n) xs)))"
proof (induction xs arbitrary: tc)
  case Nil
  then show ?case by simp
next
  case (Cons r rs)
  show ?case
  proof (cases "n < int (length (r # rs))")
    case True
    then have le: "nat n \<le> length rs" using Cons.prems by simp
    then have "length (r # rs) - nat n = Suc (length rs - nat n)" by simp
    with True Cons.IH [OF Cons.prems, of "tc - tokens r"] show ?thesis by simp
  next
    case False
    then have "length (r # rs) - nat n = 0" by simp
    with False show ?thesis by simp
  qed
qed

lemma evict_excess:
  "evict n xs tc = Inr (ys, tc') \<Longrightarrow>
   tc' - sum_list (map tokens ys) = tc - sum_list (map tokens xs)"
  by (induction xs arbitrary: tc) (auto split: if_splits)

lemma evict_error: "evict n xs tc = Inl e \<Longrightarrow> e = IndexError \<and> n < 0"
  by (induction xs arbitrary: tc) (auto split: if_splits)

lemma check_summarization_needed_fields:
  "recent_qa (check_summarization_needed cm t) = recent_qa cm"
  "token_count (check_summarization_needed cm t) = token_count cm"
  "max_recent_entries (check_summarization_needed cm t) = max_recent_entries cm"
  "summary (check_summarization_needed cm t) = summary cm"
  "last_summarization_time (check_summarization_needed cm t) = last_summarization_time cm"
  by (simp_all add: check_summarization_needed_def put_nowait_def Let_def)

lemma add_qa_excess:
  assumes "add_qa cm q a now t = Inr cm'"
  shows "token_count cm' - weight_sum cm' = token_count cm - weight_sum cm"
proof -
  let ?e = "\<lparr> question = q, answer = a, timestamp = now, tokens = estimate_tokens (q @ a) \<rparr>"
  from assms obtain ys tc where
    ev: "evict (max_recent_entries cm) (recent_qa cm @ [?e]) (token_count cm + tokens ?e) = Inr (ys, tc)"
    and cm': "cm' = check_summarization_needed (cm\<lparr>recent_qa := ys, token_count := tc\<rparr>) t"
    by (auto simp: add_qa_def Let_def split: sum.splits)
  from evict_excess [OF ev] cm' show ?thesis
    by (simp add: weight_sum_def check_summarization_needed_fields)
qed

lemma add_all_excess:
  "add_all cm calls = Inr cm' \<Longrightarrow>
   token_count cm' - weight_sum cm' = token_count cm - weight_sum cm"
proof (induction calls arbitrary: cm)
  case Nil
  then show ?case by simp
next
  case (Cons c calls)
  obtain q a now t where c: "c = (q, a, now, t)" by (cases c) auto
  from Cons.prems c obtain cm1 where
    s1: "add_qa cm q a now t = Inr cm1" and rest: "add_all cm1 calls = Inr cm'"
    by (auto split: sum.splits)
  from Cons.IH [OF rest] add_qa_excess [OF s1] show ?case by simp
qed

lemma five_turns_reached:
  "add_all (init 10 1200 900 True) five_calls = Inr five_turns"
  by (simp add: five_calls_def add_qa_def init_def five_turns_def short_turn_def
      estimate_tokens_def split_def str_def isspace_def check_summarization_needed_def Let_def)

lemma five_turns_sum: "token_count five_turns = weight_sum five_turns"
  by (simp add: five_turns_def weight_sum_def short_turn_def init_def)

lemma five_turns_summarized:
  "perform_summarization five_turns (recent_qa five_turns) (Inr (Some (str ''ok''))) 2
     = Inr five_summarized"
  by (simp add: perform_summarization_def summarization_update_def five_turns_def init_def
      slice_last_def estimate_tokens_def split_def str_def isspace_def strip_def Let_def
      short_turn_def five_summarized_def)

lemma five_summarized_weights:
  "token_count five_summarized = 5" "weight_sum five_summarized = 4"
  by (simp_all add: five_summarized_def weight_sum_def short_turn_def)

lemma one_turn_reached:
  "add_qa (init 10 1200 900 True) (str ''a'') (str ''b'') 1 1 = Inr one_turn"
  by (simp add: add_qa_def init_def one_turn_def short_turn_def
      estimate_tokens_def split_def str_def isspace_def check_summarization_needed_def Let_def)

lemma slice_last_short: "length xs \<le> k \<Longrightarrow> slice_last k xs = xs"
  by (simp add: slice_last_def)

lemma summarization_update_fields:
  "summary (summarization_update k cm s now) = strip s"
  "last_summarization_time (summarization_update k cm s now) = now"
  "recent_qa (summarization_update k cm s now) = slice_last k (recent_qa cm)"
  "token_count (summarization_update k cm s now) =
     (if k < length (recent_qa cm)
      then sum_list (map tokens (slice_last k (recent_qa cm))) + estimate_tokens (strip s)
      else token_count cm)"
  by (simp_all add: summarization_update_def Let_def slice_last_short)

lemma perform_summarization_cases:
  assumes "perform_summarization cm qa reply now = Inr cm'"
  shows "cm' = cm \<or> (\<exists>s. cm' = summarization_update 4 cm s now)"
  using assms by (auto simp: perform_summarization_def split: if_splits sum.splits option.splits)

lemma perform_summarization_weight:
  assumes "perform_summarization cm qa reply now = Inr cm'"
  shows "(recent_qa cm' = recent_qa cm \<and> token_count cm' = token_count cm)
         \<or> (length (recent_qa cm') < length (recent_qa cm)
             \<and> token_count cm' = weight_sum cm' + estimate_tokens (summary cm'))"
proof -
  from perform_summarization_cases [OF assms] show ?thesis
  proof
    assume "cm' = cm" then show ?thesis by simp
  next
    assume "\<exists>s. cm' = summarization_update 4 cm s now"
    then obtain s where s: "cm' = summarization_update 4 cm s now" ..
    show ?thesis
    proof (cases "4 < length (recent_qa cm)")
      case True
      then show ?thesis
        by (simp add: s summarization_update_fields weight_sum_def slice_last_def)
    next
      case False
      then show ?thesis by (simp add: s summarization_update_fields slice_last_short)
    qed
  qed
qed

lemma init_excess: "token_count (init n m th sv) = weight_sum (init n m th sv)"
  by (simp add: init_def weight_sum_def)

text \<open>
  Claim C1, as stated: after every \<open>add_qa\<close> call and after every completed
  summarization, \<open>_token_count\<close> equals the sum of \<open>tokens\<close> over \<open>recent_qa\<close>.
  It fails after a summarization: five turns of weight 1 are added to a fresh manager
  (count 5, sum 5), the collaborator answers "ok", four turns are kept, and the count is
  4 plus the estimate 1 of the summary, that is 5, while the sum is 4.
\<close>

theorem total_weight_counterexample:
  "add_all (init 10 1200 900 True) five_calls = Inr five_turns
   \<and> token_count five_turns = weight_sum five_turns
   \<and> perform_summarization five_turns (recent_qa five_turns) (Inr (Some (str ''ok''))) 2
        = Inr five_summarized
   \<and> token_count five_summarized = 5
   \<and> weight_sum five_summarized = 4"
  using five_turns_reached five_turns_sum five_turns_summarized five_summarized_weights
  by simp

text \<open>
  Claim C1, amended: every \<open>add_qa\<close> call leaves the difference between \<open>_token_count\<close>
  and the sum of \<open>tokens\<close> over \<open>recent_qa\<close> as it was, so that after any sequence of
  \<open>add_qa\<close> calls on a fresh manager the two are equal; a summarization either leaves
  \<open>recent_qa\<close> and \<open>_token_count\<close> untouched, or shortens \<open>recent_qa\<close> and sets
  \<open>_token_count\<close> to the sum over the retained entries plus the token estimate of the
  new summary.
\<close>

theorem total_weight_accounting:
  "(add_qa cm q a now t = Inr cm1 \<longrightarrow>
      token_count cm1 - weight_sum cm1 = token_count cm - weight_sum cm)
   \<and> (add_all (init n m th sv) calls = Inr cm2 \<longrightarrow> token_count cm2 = weight_sum cm2)
   \<and> (perform_summarization cm3 qa reply now' = Inr cm4 \<longrightarrow>
        (recent_qa cm4 = recent_qa cm3 \<and> token_count cm4 = token_count cm3)
        \<or> (length (recent_qa cm4) < length (recent_qa cm3)
            \<and> token_count cm4 = weight_sum cm4 + estimate_tokens (summary cm4)))"
proof (intro conjI impI)
  assume "add_qa cm q a now t = Inr cm1"
  then show "token_count cm1 - weight_sum cm1 = token_count cm - weight_sum cm"
    by (rule add_qa_excess)
next
  assume "add_all (init n m th sv) calls = Inr cm2"
  from add_all_excess [OF this] show "token_count cm2 = weight_sum cm2"
    by (simp add: init_excess)
next
  assume "perform_summarization cm3 qa reply now' = Inr cm4"
  then show "(recent_qa cm4 = recent_qa cm3 \<and> token_count cm4 = token_count cm3)
        \<or> (length (recent_qa cm4) < length (recent_qa cm3)
            \<and> token_count cm4 = weight_sum cm4 + estimate_tokens (summary cm4))"
    by (rule perform_summarization_weight)
qed

text \<open>The witness of C1: the first call and the five calls on a fresh manager, then the
  summarization of the five turns.\<close>

theorem total_weight_accounting_witness:
  "add_qa (init 10 1200 900 True) (str ''a'') (str ''b'') 1 1 = Inr one_turn
   \<and> token_count one_turn - weight_sum one_turn
       = token_count (init 10 1200 900 True) - weight_sum (init 10 1200 900 True)
   \<and> add_all (init 10 1200 900 True) five_calls = Inr five_turns
   \<and> token_count five_turns = weight_sum five_turns
   \<and> perform_summarization five_turns (recent_qa five_turns) (Inr (Some (str ''ok''))) 2
        = Inr five_summarized
   \<and> length (recent_qa five_summarized) < length (recent_qa five_turns)
   \<and> token_count five_summarized
       = weight_sum five_summarized + estimate_tokens (summary five_summarized)"
  using total_weight_accounting [of "init 10 1200 900 True" "str ''a''" "str ''b''" 1 1 one_turn
      10 1200 900 True five_calls five_turns five_turns "recent_qa five_turns"
      "Inr (Some (str ''ok''))" 2 five_summarized]
    one_turn_reached five_turns_reached five_turns_summarized
  by (simp add: five_summarized_def five_turns_def)

lemma add_qa_nonneg:
  assumes "0 \<le> max_recent_entries cm"
  shows "add_qa cm q a now t =
    (let entry = \<lparr> question = q, answer = a, timestamp = now, tokens = estimate_tokens (q @ a) \<rparr>;
         k = length (recent_qa cm @ [entry]) - nat (max_recent_entries cm)
     in Inr (check_summarization_needed
              (cm\<lparr>recent_qa := drop k (recent_qa cm @ [entry]),
                  token_count := token_count cm + tokens entry
                     - sum_list (map tokens (take k (recent_qa cm @ [entry])))\<rparr>) t))"
  by (simp add: add_qa_def Let_def evict_nonneg [OF assms])

lemma add_qa_bound_kept:
  "add_qa cm q a now t = Inr cm' \<Longrightarrow> max_recent_entries cm' = max_recent_entries cm"
  by (auto simp: add_qa_def Let_def check_summarization_needed_fields split: sum.splits)

lemma add_qa_length:
  assumes "0 \<le> max_recent_entries cm"
  shows "\<exists>cm'. add_qa cm q a now t = Inr cm' \<and> max_recent_entries cm' = max_recent_entries cm
           \<and> int (length (recent_qa cm')) \<le> max_recent_entries cm"
  using assms
  by (simp add: add_qa_nonneg [OF assms] Let_def check_summarization_needed_fields)

lemma add_all_length:
  "0 \<le> max_recent_entries cm \<Longrightarrow> int (length (recent_qa cm)) \<le> max_recent_entries cm \<Longrightarrow>
   \<exists>cm'. add_all cm calls = Inr cm' \<and> int (length (recent_qa cm')) \<le> max_recent_entries cm"
proof (induction calls arbitrary: cm)
  case Nil
  then show ?case by simp
next
  case (Cons c calls)
  obtain q a now t where c: "c = (q, a, now, t)" by (cases c) auto
  from add_qa_length [OF Cons.prems(1), of q a now t] obtain cm1 where
    s1: "add_qa cm q a now t = Inr cm1" and m: "max_recent_entries cm1 = max_recent_entries cm"
    and l: "int (length (recent_qa cm1)) \<le> max_recent_entries cm" by blast
  from Cons.IH [of cm1] m l Cons.prems(1) obtain cm' where
    "add_all cm1 calls = Inr cm'" "int (length (recent_qa cm')) \<le> max_recent_entries cm"
    by auto
  with s1 c show ?case by simp
qed

text \<open>
  Claim C3: for a maximum entry count \<open>n\<close> (a count, so \<open>0 \<le> n\<close>; with a negative bound
  the loop empties the list and \<open>pop(0)\<close> raises), after any sequence of \<open>add_qa\<close> calls
  on a fresh manager \<open>recent_qa\<close> holds at most \<open>n\<close> entries; and one call, from any
  state, appends the new entry, removes from the front the \<open>k\<close> oldest entries that
  exceed the bound and subtracts their \<open>tokens\<close> from \<open>_token_count\<close>.
\<close>

theorem recent_turns_bounded_fifo:
  assumes "0 \<le> n"
  shows "(\<exists>cm'. add_all (init n m th sv) calls = Inr cm' \<and> int (length (recent_qa cm')) \<le> n)
    \<and> (max_recent_entries cm = n \<longrightarrow>
        (\<exists>cm1. add_qa cm q a now t = Inr cm1
           \<and> int (length (recent_qa cm1)) \<le> n
           \<and> (let entry = \<lparr> question = q, answer = a, timestamp = now,
                             tokens = estimate_tokens (q @ a) \<rparr>;
                   turns = recent_qa cm @ [entry];
                   k = length turns - nat n
               in recent_qa cm1 = drop k turns
                  \<and> token_count cm1
                      = token_count cm + tokens entry - sum_list (map tokens (take k turns)))))"
proof (intro conjI impI)
  have "0 \<le> max_recent_entries (init n m th sv)"
    "int (length (recent_qa (init n m th sv))) \<le> max_recent_entries (init n m th sv)"
    using assms by (simp_all add: init_def)
  from add_all_length [OF this, of calls]
  show "\<exists>cm'. add_all (init n m th sv) calls = Inr cm' \<and> int (length (recent_qa cm')) \<le> n"
    by (simp add: init_def)
next
  assume n: "max_recent_entries cm = n"
  then have nn: "0 \<le> max_recent_entries cm" using assms by simp
  show "\<exists>cm1. add_qa cm q a now t = Inr cm1
           \<and> int (length (recent_qa cm1)) \<le> n
           \<and> (let entry = \<lparr> question = q, answer = a, timestamp = now,
                             tokens = estimate_tokens (q @ a) \<rparr>;
                   turns = recent_qa cm @ [entry];
                   k = length turns - nat n
               in recent_qa cm1 = drop k turns
                  \<and> token_count cm1
                      = token_count cm + tokens entry - sum_list (map tokens (take k turns)))"
    using assms n
    by (simp add: add_qa_nonneg [OF nn] Let_def check_summarization_needed_fields)
qed

text \<open>The witness of C3: bound 1, five calls on a fresh manager, and a call that evicts
  the only entry held.\<close>

theorem recent_turns_bounded_fifo_witness:
  "(0::int) \<le> 1
   \<and> (\<exists>cm'. add_all (init 1 1200 900 True) five_calls = Inr cm' \<and> int (length (recent_qa cm')) \<le> 1)
   \<and> max_recent_entries (one_turn\<lparr>max_recent_entries := 1\<rparr>) = 1
   \<and> (\<exists>cm1. add_qa (one_turn\<lparr>max_recent_entries := 1\<rparr>) (str ''c'') (str ''d e'') 2 2 = Inr cm1
         \<and> int (length (recent_qa cm1)) \<le> 1
         \<and> recent_qa cm1 = [\<lparr> question = str ''c'', answer = str ''d e'', timestamp = 2, tokens = 3 \<rparr>]
         \<and> token_count cm1 = 3)"
  using recent_turns_bounded_fifo [where n = 1 and m = 1200 and th = 900 and sv = True
      and calls = five_calls and cm = "one_turn\<lparr>max_recent_entries := 1\<rparr>"
      and q = "str ''c''" and a = "str ''d e''" and now = 2 and t = 2]
  by (simp add: one_turn_def init_def short_turn_def estimate_tokens_def split_def str_def
      isspace_def Let_def)

lemma check_summarization_needed_queue:
  "summarization_queue (check_summarization_needed cm t) =
     (if summarization_threshold cm < token_count cm
         \<and> min_summarization_interval cm < t - last_summarization_time cm
      then (if 0 < queue_maxsize cm \<and> queue_maxsize cm \<le> int (length (summarization_queue cm))
            then summarization_queue cm
            else summarization_queue cm @ [Some (recent_qa cm)])
      else summarization_queue cm)"
  by (simp add: check_summarization_needed_def put_nowait_def Let_def)

text \<open>
  Claim C7: \<open>add_qa\<close> puts a copy of the resulting \<open>recent_qa\<close> on the queue exactly when
  the resulting \<open>_token_count\<close> exceeds the threshold and more than the minimum interval
  separates the clock from the last summarization time; when the queue is full the
  request is dropped and the queue stays as it was. The only exception \<open>add_qa\<close> can
  raise is the \<open>IndexError\<close> of the eviction loop under a negative bound, never
  \<open>queue.Full\<close>.
\<close>

theorem summarization_trigger:
  "case add_qa cm q a now t of
     Inl e \<Rightarrow> e = IndexError \<and> max_recent_entries cm < 0
   | Inr cm' \<Rightarrow>
       summarization_queue cm' =
         (if summarization_threshold cm < token_count cm'
             \<and> min_summarization_interval cm < t - last_summarization_time cm
          then (if 0 < queue_maxsize cm
                   \<and> queue_maxsize cm \<le> int (length (summarization_queue cm))
                then summarization_queue cm
                else summarization_queue cm @ [Some (recent_qa cm')])
          else summarization_queue cm)"
proof (cases "add_qa cm q a now t")
  case (Inl e)
  then show ?thesis
    by (auto simp: add_qa_def Let_def split: sum.splits dest: evict_error)
next
  case (Inr cm')
  then obtain ys tc where
    cm': "cm' = check_summarization_needed (cm\<lparr>recent_qa := ys, token_count := tc\<rparr>) t"
    by (auto simp: add_qa_def Let_def split: sum.splits)
  show ?thesis
    unfolding Inr sum.case cm'
    by (simp add: check_summarization_needed_queue check_summarization_needed_fields)
qed

text \<open>The witness of C7: threshold 0 and 100 seconds on the clock, with an unbounded queue
  (the request is enqueued) and with a full queue of size 1 (it is dropped).\<close>

theorem summarization_trigger_witness:
  "add_qa (init 10 1200 0 True) (str ''a'') (str ''b'') 1 100
     = Inr ((init 10 1200 0 True)\<lparr>recent_qa := [short_turn], token_count := 1,
                                   summarization_queue := [Some [short_turn]]\<rparr>)
   \<and> add_qa ((init 10 1200 0 True)\<lparr>queue_maxsize := 1, summarization_queue := [None]\<rparr>)
        (str ''a'') (str ''b'') 1 100
     = Inr ((init 10 1200 0 True)\<lparr>queue_maxsize := 1, summarization_queue := [None],
                                   recent_qa := [short_turn], token_count := 1\<rparr>)"
  using summarization_trigger [where cm = "init 10 1200 0 True" and q = "str ''a''"
      and a = "str ''b''" and now = 1 and t = 100]
    summarization_trigger [where
      cm = "(init 10 1200 0 True)\<lparr>queue_maxsize := 1, summarization_queue := [None]\<rparr>"
      and q = "str ''a''" and a = "str ''b''" and now = 1 and t = 100]
  by (simp add: add_qa_def init_def short_turn_def estimate_tokens_def split_def str_def
      isspace_def check_summarization_needed_def put_nowait_def Let_def)

section \<open>Properties of summarization\<close>

lemma perform_summarization_no_summary:
  "no_summary r \<Longrightarrow> perform_summarization cm qa (Inr r) now = Inr cm"
  by (auto simp: perform_summarization_def no_summary_def split: option.splits)

lemma worker_step_no_summary:
  assumes "no_summary r"
  shows "\<exists>running cm'. worker_step cm (Inr r) now = Inr (running, cm')
           \<and> summary cm' = summary cm \<and> recent_qa cm' = recent_qa cm
           \<and> token_count cm' = token_count cm
           \<and> last_summarization_time cm' = last_summarization_time cm"
proof (cases "summarization_queue cm")
  case Nil
  then show ?thesis by (auto simp: worker_step_def)
next
  case (Cons item q)
  then show ?thesis
    by (cases item) (auto simp: worker_step_def perform_summarization_no_summary [OF assms])
qed

lemma worker_no_summary:
  "\<forall>(r, now) \<in> set replies. no_summary r \<Longrightarrow>
   \<exists>running cm'. worker cm (map (\<lambda>(r, now). (Inr r, now)) replies) = Inr (running, cm')
     \<and> summary cm' = summary cm \<and> recent_qa cm' = recent_qa cm
     \<and> token_count cm' = token_count cm
     \<and> last_summarization_time cm' = last_summarization_time cm"
proof (induction replies arbitrary: cm)
  case Nil
  then show ?case by auto
next
  case (Cons x replies)
  obtain r now where x: "x = (r, now)" by (cases x) auto
  with Cons.prems have r: "no_summary r" and rest: "\<forall>(r, now) \<in> set replies. no_summary r"
    by auto
  from worker_step_no_summary [OF r, of cm now] obtain running cm1 where
    step: "worker_step cm (Inr r) now = Inr (running, cm1)"
    and same: "summary cm1 = summary cm" "recent_qa cm1 = recent_qa cm"
      "token_count cm1 = token_count cm"
      "last_summarization_time cm1 = last_summarization_time cm"
    by blast
  show ?case
  proof (cases running)
    case True
    from Cons.IH [OF rest, of cm1] same step True x show ?thesis by auto
  next
    case False
    with step same x show ?thesis by auto
  qed
qed

lemma send_summarization_raised: "send_summarization (Inl e) = None"
  by (simp add: send_summarization_def then_do_def)

text \<open>
  Claim C5: when every call of the collaborator \<open>send_summarization\<close> ends without
  a summary (the request raised, the body was malformed, or the text was empty), the
  worker of \<open>xh_2.py\<close> runs through any number of attempts without an exception and
  leaves \<open>summary\<close>, \<open>recent_qa\<close>, \<open>_token_count\<close> and \<open>last_summarization_time\<close> as
  they were; each single \<open>_perform_summarization\<close> returns the manager unchanged. A
  request that raises makes the collaborator return \<open>None\<close>.
\<close>

theorem failed_summarization_keeps_state:
  "send_summarization (Inl e) = None
   \<and> ((\<forall>(response, now) \<in> set attempts. no_summary (send_summarization response)) \<longrightarrow>
     (\<exists>running cm'.
         worker cm (map (\<lambda>(response, now). (Inr (send_summarization response), now)) attempts)
           = Inr (running, cm')
         \<and> summary cm' = summary cm \<and> recent_qa cm' = recent_qa cm
         \<and> token_count cm' = token_count cm
         \<and> last_summarization_time cm' = last_summarization_time cm)
     \<and> (\<forall>(response, now) \<in> set attempts. \<forall>qa_entries.
           perform_summarization cm qa_entries (Inr (send_summarization response)) now = Inr cm))"
proof (intro impI conjI)
  show "send_summarization (Inl e) = None" by (rule send_summarization_raised)
next
  assume a: "\<forall>(response, now) \<in> set attempts. no_summary (send_summarization response)"
  then have "\<forall>(r, now) \<in> set (map (\<lambda>(response, now). (send_summarization response, now)) attempts).
      no_summary r" by auto
  from worker_no_summary [OF this, of cm]
  show "\<exists>running cm'.
         worker cm (map (\<lambda>(response, now). (Inr (send_summarization response), now)) attempts)
           = Inr (running, cm')
         \<and> summary cm' = summary cm \<and> recent_qa cm' = recent_qa cm
         \<and> token_count cm' = token_count cm
         \<and> last_summarization_time cm' = last_summarization_time cm"
    by (simp add: case_prod_unfold comp_def)
  from a show "\<forall>(response, now) \<in> set attempts. \<forall>qa_entries.
           perform_summarization cm qa_entries (Inr (send_summarization response)) now = Inr cm"
    by (auto simp: perform_summarization_no_summary)
qed

lemma failing_attempts_fail:
  "\<forall>(response, now) \<in> set failing_attempts. no_summary (send_summarization response)"
  by (simp add: failing_attempts_def blank_response_def send_summarization_def then_do_def
      response_content_def no_summary_def str_def strip_def isspace_def)

text \<open>The witness of C5: three batches are queued and the three attempts fail in the three
  ways; the worker empties the queue and changes nothing else.\<close>

theorem failed_summarization_keeps_state_witness:
  "no_summary (send_summarization (Inl RequestException))
   \<and> no_summary (send_summarization (Inr (JObj [])))
   \<and> no_summary (send_summarization (Inr blank_response))
   \<and> worker queued_manager
        (map (\<lambda>(response, now). (Inr (send_summarization response), now)) failing_attempts)
       = Inr (True, five_turns)
   \<and> perform_summarization queued_manager [short_turn]
        (Inr (send_summarization (Inr blank_response))) 90
       = Inr queued_manager"
proof -
  note h = failing_attempts_fail
  from failed_summarization_keeps_state
         [where attempts = failing_attempts and cm = queued_manager and e = RequestException] h
  have "\<forall>(response, now) \<in> set failing_attempts. \<forall>qa_entries.
         perform_summarization queued_manager qa_entries (Inr (send_summarization response)) now
           = Inr queued_manager"
    by blast
  then have single: "perform_summarization queued_manager [short_turn]
        (Inr (send_summarization (Inr blank_response))) 90 = Inr queued_manager"
    by (simp add: failing_attempts_def)
  have run: "worker queued_manager
        (map (\<lambda>(response, now). (Inr (send_summarization response), now)) failing_attempts)
       = Inr (True, five_turns)"
    by (simp add: failing_attempts_def blank_response_def send_summarization_def then_do_def
        response_content_def str_def strip_def isspace_def worker_step_def queued_manager_def
        perform_summarization_def five_turns_def short_turn_def init_def)
  from h single run show ?thesis by (simp add: failing_attempts_def)
qed

text \<open>
  Claim C6, as stated: after a successful summarization \<open>_token_count\<close> is the sum over the
  retained entries plus the estimate of the new summary. It fails when no more entries
  are held than are kept: with one turn of weight 1 and the summary "ok" (estimate 1) the
  count stays 1 and is not recomputed to 2.
\<close>

theorem summarization_recount_counterexample:
  "add_qa (init 10 1200 900 True) (str ''a'') (str ''b'') 1 1 = Inr one_turn
   \<and> perform_summarization one_turn (recent_qa one_turn) (Inr (Some (str ''ok''))) 2
       = Inr one_summarized
   \<and> token_count one_summarized = 1
   \<and> weight_sum one_summarized + estimate_tokens (summary one_summarized) = 2"
  using one_turn_reached
  by (simp add: perform_summarization_def summarization_update_def one_turn_def
      one_summarized_def init_def short_turn_def weight_sum_def estimate_tokens_def split_def
      str_def strip_def isspace_def Let_def)

text \<open>
  Claim C6, amended: whenever the collaborator returns a non-empty summary for a non-empty
  batch, the stored summary becomes the produced text trimmed, the last summarization
  time becomes the clock reading and \<open>recent_qa\<close> becomes its most recent entries up to
  the keep count (4 in \<open>xh_2.py\<close>, 2 in \<open>wp_11_analist_gemini.py\<close>); \<open>_token_count\<close> is
  recomputed as the sum over the retained entries plus the estimate of the new summary
  when more entries were held than the keep count, and is left as it was otherwise.
\<close>

theorem successful_summarization:
  assumes "qa_entries \<noteq> []" and "solver cm" and "s \<noteq> []"
  shows "(\<exists>cm'. perform_summarization cm qa_entries (Inr (Some s)) now = Inr cm'
           \<and> summary cm' = strip s
           \<and> last_summarization_time cm' = now
           \<and> recent_qa cm' = slice_last 4 (recent_qa cm)
           \<and> token_count cm' =
               (if 4 < length (recent_qa cm)
                then weight_sum cm' + estimate_tokens (summary cm')
                else token_count cm))
    \<and> (\<exists>cm'. perform_summarization_gemini cm qa_entries (Inr (Some s)) now = Inr cm'
           \<and> summary cm' = strip s
           \<and> last_summarization_time cm' = now
           \<and> recent_qa cm' = slice_last 2 (recent_qa cm)
           \<and> token_count cm' =
               (if 2 < length (recent_qa cm)
                then weight_sum cm' + estimate_tokens (summary cm')
                else token_count cm))"
  using assms
  by (simp add: perform_summarization_def perform_summarization_gemini_def
      summarization_update_fields weight_sum_def)

text \<open>The witness of C6: the five turns summarized as "ok".\<close>

theorem successful_summarization_witness:
  "recent_qa five_turns \<noteq> [] \<and> solver five_turns \<and> str ''ok'' \<noteq> []
   \<and> perform_summarization five_turns (recent_qa five_turns) (Inr (Some (str ''ok''))) 2
       = Inr five_summarized
   \<and> summary five_summarized = strip (str ''ok'')
   \<and> last_summarization_time five_summarized = 2
   \<and> recent_qa five_summarized = slice_last 4 (recent_qa five_turns)
   \<and> token_count five_summarized
       = weight_sum five_summarized + estimate_tokens (summary five_summarized)"
proof -
  have h: "recent_qa five_turns \<noteq> []" "solver five_turns" "str ''ok'' \<noteq> []"
    by (simp_all add: five_turns_def init_def str_def)
  from successful_summarization [OF h, of 2] five_turns_summarized h show ?thesis
    by (auto simp: five_turns_def)
qed

section \<open>Properties of context rendering\<close>

text \<open>
  Claim C10: for every state of the manager and every two queries, \<open>get_context_for_query\<close>
  returns the same string, in \<open>xh_2.py\<close> and in \<open>wp_11_analist_gemini.py\<close>: the argument
  \<open>new_question\<close> is never read.
\<close>

theorem context_ignores_query:
  "get_context_for_query cm q1 = get_context_for_query cm q2
   \<and> get_context_for_query_gemini cm q1 = get_context_for_query_gemini cm q2"
  by (simp add: get_context_for_query_def get_context_for_query_gemini_def)

text \<open>The witness of C10: one turn held, two different queries.\<close>

theorem context_ignores_query_witness:
  "get_context_for_query one_turn (str ''what next'') = get_context_for_query one_turn []
   \<and> get_context_for_query_gemini one_turn (str ''what next'')
       = get_context_for_query_gemini one_turn []
   \<and> get_context_for_query_gemini one_turn [] = label_recent_gemini @ [0xA] @ str ''Q: a'' @ [0xA] @ str ''A: b''"
  using context_ignores_query [of one_turn "str ''what next''" "[]"]
  by (simp add: get_context_for_query_gemini_def one_turn_def init_def short_turn_def
      render_entries_def str_def)

section \<open>Properties of the transcription session\<close>

lemma object_fields_Some: "object_fields j = Some kvs \<longleftrightarrow> j = JObj kvs"
  by (cases j) auto

lemma first_alternative_Some:
  "first_alternative j = Some alt \<longleftrightarrow> (\<exists>others. j = JArr (JObj alt # others))"
  by (cases j rule: first_alternative.cases) auto

lemma on_message_carries:
  assumes "carries data e"
  shows "on_message s (Some data) =
     Inr (s\<lparr>final_chunks := fst (accumulate (final_chunks s, partial s) e),
            partial := snd (accumulate (final_chunks s, partial s) e)\<rparr>)"
proof -
  from assms obtain kvs ch alt where
    data: "object_fields data = Some kvs"
    and ty: "map_of kvs (str ''type'') = Some (JStr (str ''Results''))"
    and fin: "map_of kvs (str ''is_final'') = Some (JBool (confirmed e))"
    and chan: "Option.bind (map_of kvs (str ''channel'')) object_fields = Some ch"
    and alts: "Option.bind (map_of ch (str ''alternatives'')) first_alternative = Some alt"
    and tr: "map_of alt (str ''transcript'') = Some (JStr (raw_transcript e))"
    by (auto simp: carries_def split: option.splits)
  from data have d: "data = JObj kvs" by (simp add: object_fields_Some)
  from chan have c: "map_of kvs (str ''channel'') = Some (JObj ch)"
    by (auto simp: bind_eq_Some_conv object_fields_Some)
  from alts obtain others where
    a: "map_of ch (str ''alternatives'') = Some (JArr (JObj alt # others))"
    by (auto simp: bind_eq_Some_conv first_alternative_Some)
  show ?thesis
    by (cases e) (simp_all add: on_message_def then_do_def d ty fin c a tr)
qed

lemma carries_results_message: "carries (results_message e) e"
  by (cases e) (simp_all add: carries_def results_message_def str_def)

lemma receive_carries:
  "list_all2 carries messages es \<Longrightarrow>
   receive s (map Some messages) =
     Inr (s\<lparr>final_chunks := fst (foldl accumulate (final_chunks s, partial s) es),
            partial := snd (foldl accumulate (final_chunks s, partial s) es)\<rparr>)"
proof (induction messages es arbitrary: s rule: list_all2_induct)
  case Nil
  show ?case by simp
next
  case (Cons m ms e es)
  show ?case by (simp add: on_message_carries [OF Cons.hyps(1)] Cons.IH)
qed

lemma stop_recording_active:
  "is_recording s \<Longrightarrow> fst (stop_recording env s) = transcript (final_chunks s, partial s)"
  by (cases "ffmpeg_process s"; cases "ws_app s")
     (simp_all add: stop_recording_def transcript_def Let_def)

lemma stop_recording_idle: "\<not> is_recording s \<Longrightarrow> stop_recording env s = (None, s)"
  by (simp add: stop_recording_def)

lemma stop_recording_stops: "\<not> is_recording (snd (stop_recording env s))"
  by (cases "is_recording s"; cases "ffmpeg_process s"; cases "ws_app s")
     (simp_all add: stop_recording_def Let_def)

lemma session_transcript_carries:
  "list_all2 carries messages es \<Longrightarrow>
   session_transcript env (s\<lparr>is_recording := True, final_chunks := [], partial := []\<rparr>)
       (map Some messages)
     = Inr (transcript (foldl accumulate ([], []) es))"
  by (simp add: session_transcript_def receive_carries stop_recording_active)

lemma carries_results_messages: "list_all2 carries (map results_message es) es"
  by (induction es) (simp_all add: carries_results_message)

lemma transcript_examples:
  "transcript (foldl accumulate ([], [])
      [Interim (str ''he''), Interim (str ''hello''), Final (str ''hello world'')])
     = Some (str ''hello world'')"
  "transcript (foldl accumulate ([], []) [Final (str ''part one''), Interim (str ''part tw'')])
     = Some (str ''part one part tw'')"
  by (simp_all add: transcript_def str_def strip_def isspace_def)

text \<open>
  Claim C2: on a message that carries a recognition event \<open>_on_message\<close> does what the
  accumulator of the specification does (an interim event replaces the pending segment,
  a final event appends its text if non-empty and clears the pending segment, the text
  being the transcript stripped); from an empty accumulator, for every sequence of
  events, \<open>stop_recording\<close> returns the finalized segments followed by the non-empty
  pending segment, joined with single spaces and trimmed (nothing when that is empty).
  The two sequences of the specification give "hello world" and "part one part tw".
\<close>

theorem transcript_accumulation:
  "(carries data e \<longrightarrow>
      on_message s (Some data) =
        Inr (s\<lparr>final_chunks := fst (accumulate (final_chunks s, partial s) e),
               partial := snd (accumulate (final_chunks s, partial s) e)\<rparr>))
   \<and> (list_all2 carries messages es \<longrightarrow>
        session_transcript env (s\<lparr>is_recording := True, final_chunks := [], partial := []\<rparr>)
            (map Some messages)
          = Inr (transcript (foldl accumulate ([], []) es)))
   \<and> session_transcript env (s\<lparr>is_recording := True, final_chunks := [], partial := []\<rparr>)
         (map Some (map results_message
            [Interim (str ''he''), Interim (str ''hello''), Final (str ''hello world'')]))
       = Inr (Some (str ''hello world''))
   \<and> session_transcript env (s\<lparr>is_recording := True, final_chunks := [], partial := []\<rparr>)
         (map Some (map results_message
            [Final (str ''part one''), Interim (str ''part tw'')]))
       = Inr (Some (str ''part one part tw''))"
proof (intro conjI impI)
  assume "carries data e"
  then show "on_message s (Some data) =
        Inr (s\<lparr>final_chunks := fst (accumulate (final_chunks s, partial s) e),
               partial := snd (accumulate (final_chunks s, partial s) e)\<rparr>)"
    by (rule on_message_carries)
next
  assume "list_all2 carries messages es"
  then show "session_transcript env (s\<lparr>is_recording := True, final_chunks := [], partial := []\<rparr>)
            (map Some messages)
          = Inr (transcript (foldl accumulate ([], []) es))"
    by (rule session_transcript_carries)
next
  show "session_transcript env (s\<lparr>is_recording := True, final_chunks := [], partial := []\<rparr>)
         (map Some (map results_message
            [Interim (str ''he''), Interim (str ''hello''), Final (str ''hello world'')]))
       = Inr (Some (str ''hello world''))"
    unfolding session_transcript_carries [OF carries_results_messages] transcript_examples ..
next
  show "session_transcript env (s\<lparr>is_recording := True, final_chunks := [], partial := []\<rparr>)
         (map Some (map results_message
            [Final (str ''part one''), Interim (str ''part tw'')]))
       = Inr (Some (str ''part one part tw''))"
    unfolding session_transcript_carries [OF carries_results_messages] transcript_examples ..
qed

lemma hello_message_carries: "carries hello_message (Final (str '' hello ''))"
  by (simp add: carries_def hello_message_def str_def)

text \<open>The witness of C2: a final message with further fields, then an interim one, both
  transcripts with spaces around them.\<close>

theorem transcript_accumulation_witness:
  "carries hello_message (Final (str '' hello ''))
   \<and> on_message transcriber_init (Some hello_message)
       = Inr (transcriber_init\<lparr>final_chunks := [str ''hello''], partial := []\<rparr>)
   \<and> list_all2 carries [hello_message, results_message (Interim (str ''two ''))]
        [Final (str '' hello ''), Interim (str ''two '')]
   \<and> session_transcript calm
        (transcriber_init\<lparr>is_recording := True, final_chunks := [], partial := []\<rparr>)
        (map Some [hello_message, results_message (Interim (str ''two ''))])
       = Inr (Some (str ''hello two''))"
proof -
  have h1: "carries hello_message (Final (str '' hello ''))" by (rule hello_message_carries)
  have h2: "list_all2 carries [hello_message, results_message (Interim (str ''two ''))]
        [Final (str '' hello ''), Interim (str ''two '')]"
    by (simp add: hello_message_carries carries_results_message)
  from transcript_accumulation
         [where data = hello_message and e = "Final (str '' hello '')" and s = transcriber_init
            and messages = "[hello_message, results_message (Interim (str ''two ''))]"
            and es = "[Final (str '' hello ''), Interim (str ''two '')]" and env = calm]
       h1 h2
  show ?thesis
    by (simp add: transcript_def transcriber_init_def str_def strip_def isspace_def)
qed

text \<open>
  Claim C4: \<open>stop_recording\<close> on a session that is not recording returns \<open>None\<close> and the
  state as it was; so it does on a new transcriber, before any \<open>start_recording\<close>, and
  as the second of two consecutive calls, whatever the first one met.
\<close>

theorem stop_when_not_active:
  "(\<not> is_recording s \<longrightarrow> stop_recording env s = (None, s))
   \<and> stop_recording env transcriber_init = (None, transcriber_init)
   \<and> stop_recording env' (snd (stop_recording env s)) = (None, snd (stop_recording env s))"
  by (simp add: stop_recording_idle stop_recording_stops transcriber_init_def)

lemma active_session_value:
  "active_session =
     \<lparr> is_recording = True, ffmpeg_process = Some ProcRunning, ws_app = Some WsRunning,
       ws_thread = True, send_thread = True, ws_connected = True, stop_sending = False,
       final_chunks = [], partial = [] \<rparr>"
  by (simp add: active_session_def start_recording_def calm_def transcriber_init_def
      wait_connected_def on_open_def Let_def)

text \<open>The witness of C4: a stopped session, and two stops of a recording session.\<close>

theorem stop_when_not_active_witness:
  "\<not> is_recording (snd (stop_recording calm active_session))
   \<and> stop_recording calm (snd (stop_recording calm active_session))
       = (None, snd (stop_recording calm active_session))
   \<and> stop_recording calm transcriber_init = (None, transcriber_init)
   \<and> stop_recording no_encoder (snd (stop_recording calm active_session))
       = (None, snd (stop_recording calm active_session))"
  using stop_when_not_active [of "snd (stop_recording calm active_session)" calm no_encoder]
    stop_when_not_active [of active_session calm no_encoder]
  by (simp add: active_session_value stop_recording_def Let_def)





end
